theory Spec2Isabelle
  imports Main "HOL-Library.Char_ord" "HOL-Library.List_Lexorder" "HOL-Library.Product_Lexorder"
begin

section \<open>The eighth-period models of intranet/apps/eighth/models.py\<close>

text \<open>
  Every Django model is a record of its columns. A foreign key that a query joins through
  (\<open>EighthSignup.scheduled_activity\<close>, \<open>EighthSignup.user\<close>) is stored as the primary key of
  the row it points to; model instances are compared by primary key, as Django's
  \<open>Model.__eq__\<close> does. The block and the activity of a scheduled activity are read
  through the row (\<open>self.block\<close>, \<open>self.activity\<close>), and the rooms of an activity
  through the activity; \<open>add_user\<close> writes to none of them. Python's integers are
  unbounded, so capacities are \<open>int\<close>.
  A \<open>datetime.date\<close> is its ordinal day number; a \<open>datetime.datetime\<close> is a date with a
  time of day, ordered lexicographically.
\<close>

type_synonym date = int

record datetime =
  dt_date :: date
  hour :: nat
  minute :: nat
  second :: nat
  microsecond :: nat

definition datetime_less :: "datetime \<Rightarrow> datetime \<Rightarrow> bool" where
  "datetime_less a b =
     ((dt_date a, hour a, minute a, second a, microsecond a)
        < (dt_date b, hour b, minute b, second b, microsecond b))"

text \<open>\<open>datetime.datetime.combine(d, datetime.time(0, 0, 0))\<close>\<close>

definition combine_midnight :: "date \<Rightarrow> datetime" where
  "combine_midnight d = \<lparr>dt_date = d, hour = 0, minute = 0, second = 0, microsecond = 0\<rparr>"


text \<open>
  The user model lives in \<open>intranet/apps/users\<close>; the eighth models read only a user's
  identity and the \<open>is_eighth_admin\<close> flag. A request carries the keys of its query string
  and the user who sent it.
\<close>

record User =
  user_pk :: nat
  is_eighth_admin :: bool

record Request =
  GET :: "string list"
  request_user :: User

record EighthRoom =
  room_name :: string
  room_capacity :: int

record EighthActivity =
  activity_pk :: nat
  activity_name :: string
  rooms :: "EighthRoom list"
  restricted :: bool
  presign :: bool
  one_a_day :: bool
  both_blocks :: bool
  sticky :: bool
  special :: bool
  deleted :: bool

record EighthBlock =
  block_pk :: nat
  date :: date
  block_letter :: string
  locked :: bool

record EighthScheduledActivity =
  block :: EighthBlock
  activity :: EighthActivity
  sa_capacity :: "int option"
  attendance_taken :: bool
  cancelled :: bool

record EighthSignup =
  signup_pk :: nat
  signup_user :: nat
  scheduled_activity_id :: nat
  after_deadline :: bool

text \<open>
  The store: the table of scheduled activities by primary key, the signup rows, and the
  next value of the signup table's key sequence.
\<close>

record db =
  scheduled_activities :: "nat \<Rightarrow> EighthScheduledActivity"
  signups :: "EighthSignup list"
  next_signup_pk :: nat

datatype error =
    SignupForbidden
  | BlockLocked
  | ScheduledActivityCancelled
  | ActivityDeleted
  | ActivityFull
  | Presign
  | Sticky
  | OneADay
  | DoesNotExist
  | MultipleObjectsReturned
  | AssertionError
  | OverflowError

text \<open>
  \<open>dt - datetime.timedelta(days=n)\<close>: Python's dates run from 0001-01-01 (ordinal 1) to
  9999-12-31 (ordinal 3652059), and a difference outside that range raises \<open>OverflowError\<close>.
\<close>

definition minus_days :: "datetime \<Rightarrow> int \<Rightarrow> error + datetime" where
  "minus_days dt n =
     (if dt_date dt - n < 1 \<or> 3652059 < dt_date dt - n then Inl OverflowError
      else Inr (dt\<lparr>dt_date := dt_date dt - n\<rparr>))"

subsection \<open>EighthActivity.capacity\<close>

definition activity_capacity :: "EighthActivity \<Rightarrow> int" where
  "activity_capacity a =
     (let all_rooms = rooms a
      in if length all_rooms = 0 then - 1
         else fold (\<lambda>room capacity. capacity + room_capacity room) all_rooms 0)"

subsection \<open>EighthBlockManager and EighthBlock\<close>

text \<open>\<open>order_by("date", "block_letter")\<close>\<close>

definition order_by_date_letter :: "EighthBlock list \<Rightarrow> EighthBlock list" where
  "order_by_date_letter bs = sort_key (\<lambda>b. (date b, block_letter b)) bs"

text \<open>
  \<open>filter(date__gte=now)\<close> compares a \<open>DateField\<close> with a \<open>datetime\<close>: the field prepares a
  lookup value with \<open>DateField.to_python\<close>, which turns a \<open>datetime\<close> into its \<open>date()\<close>.
\<close>

definition date_gte :: "date \<Rightarrow> datetime \<Rightarrow> bool" where
  "date_gte d now = (d \<ge> dt_date now)"

definition get_first_upcoming_block :: "EighthBlock list \<Rightarrow> datetime \<Rightarrow> EighthBlock option" where
  "get_first_upcoming_block objects now0 =
     (let now = (if hour now0 < 17
                 then now0\<lparr>hour := 0, minute := 0, second := 0, microsecond := 0\<rparr>
                 else now0)
      in case filter (\<lambda>b. date_gte (date b) now) (order_by_date_letter objects) of
           [] \<Rightarrow> None
         | b # _ \<Rightarrow> Some b)"

text \<open>
  A queryset slice \<open>blocks[:k]\<close> with negative \<open>k\<close> fails Django's assertion
  "Negative indexing is not supported".
\<close>

definition slice_to :: "'a list \<Rightarrow> int \<Rightarrow> error + 'a list" where
  "slice_to xs k = (if k < 0 then Inl AssertionError else Inr (take (nat k) xs))"

definition next_blocks :: "EighthBlock list \<Rightarrow> EighthBlock \<Rightarrow> int \<Rightarrow> error + EighthBlock list" where
  "next_blocks objects self quantity =
     (let blocks = filter (\<lambda>b. date b > date self
                              \<or> (date b = date self \<and> block_letter b > block_letter self))
                     (order_by_date_letter objects)
      in if quantity = - 1 then Inr blocks
         else slice_to blocks (quantity + 1))"

definition previous_blocks :: "EighthBlock list \<Rightarrow> EighthBlock \<Rightarrow> int \<Rightarrow> error + EighthBlock list" where
  "previous_blocks objects self quantity =
     (let blocks = filter (\<lambda>b. date b < date self
                              \<or> (date b = date self \<and> block_letter b < block_letter self))
                     (rev (order_by_date_letter objects))
      in if quantity = - 1 then Inr (rev blocks)
         else map_sum id rev (slice_to blocks (quantity + 1)))"

subsection \<open>EighthScheduledActivity\<close>

definition get_true_capacity :: "EighthScheduledActivity \<Rightarrow> int" where
  "get_true_capacity sa =
     (case sa_capacity sa of Some c \<Rightarrow> c | None \<Rightarrow> activity_capacity (activity sa))"

text \<open>The row a signup's foreign key points to.\<close>

definition scheduled_activity :: "db \<Rightarrow> EighthSignup \<Rightarrow> EighthScheduledActivity" where
  "scheduled_activity d s = scheduled_activities d (scheduled_activity_id s)"

text \<open>\<open>self.eighthsignup_set\<close>: the signups whose \<open>scheduled_activity\<close> is \<open>self\<close>.\<close>

definition eighthsignup_set :: "db \<Rightarrow> nat \<Rightarrow> EighthSignup list" where
  "eighthsignup_set d self = filter (\<lambda>s. scheduled_activity_id s = self) (signups d)"

definition is_full :: "db \<Rightarrow> nat \<Rightarrow> bool" where
  "is_full d self =
     (let capacity = get_true_capacity (scheduled_activities d self)
      in if capacity \<noteq> - 1
         then (let num_signed_up = int (length (eighthsignup_set d self))
               in num_signed_up \<ge> capacity)
         else False)"

text \<open>
  \<open>is_too_early_to_signup\<close> with the clock's reading \<open>now\<close>; the subtraction of the presign
  period raises for a block dated in the first two days of year 1.
\<close>

definition is_too_early_to_signup :: "EighthScheduledActivity \<Rightarrow> datetime \<Rightarrow> error + bool" where
  "is_too_early_to_signup sa now =
     (let activity_date = combine_midnight (date (block sa));
          presign_period = 2
      in case minus_days activity_date presign_period of
           Inl e \<Rightarrow> Inl e
         | Inr opens \<Rightarrow> Inr (datetime_less now opens))"

text \<open>The two queries of the sticky and one-a-day checks, both on \<open>self.eighthsignup_set\<close>.\<close>

definition in_a_stickie :: "db \<Rightarrow> nat \<Rightarrow> User \<Rightarrow> bool" where
  "in_a_stickie d self user =
     (length (filter (\<lambda>s. signup_user s = user_pk user
                          \<and> sticky (activity (scheduled_activity d s)))
                (eighthsignup_set d self)) \<noteq> 0)"

definition in_act :: "db \<Rightarrow> nat \<Rightarrow> User \<Rightarrow> bool" where
  "in_act d self user =
     (let me = scheduled_activities d self
      in length (filter (\<lambda>s. signup_user s = user_pk user
                             \<and> date (block (scheduled_activity d s)) = date (block me)
                             \<and> activity_pk (activity (scheduled_activity d s))
                                 = activity_pk (activity me))
                   (filter (\<lambda>s. \<not> block_pk (block (scheduled_activity d s)) = block_pk (block me))
                      (eighthsignup_set d self))) \<noteq> 0)"

text \<open>\<open>EighthSignup.objects.filter(user=u, scheduled_activity__block=b)\<close>\<close>

definition user_block_signups :: "db \<Rightarrow> nat \<Rightarrow> nat \<Rightarrow> EighthSignup list" where
  "user_block_signups d u b =
     filter (\<lambda>s. signup_user s = u \<and> block_pk (block (scheduled_activity d s)) = b) (signups d)"

text \<open>\<open>QuerySet.get\<close>: the one matching row, or one of its two exceptions.\<close>

definition objects_get :: "EighthSignup list \<Rightarrow> error + EighthSignup" where
  "objects_get matching =
     (case matching of
        [] \<Rightarrow> Inl DoesNotExist
      | [s] \<Rightarrow> Inr s
      | _ \<Rightarrow> Inl MultipleObjectsReturned)"

text \<open>\<open>instance.save()\<close> of a loaded row: an UPDATE of the row with the instance's key.\<close>

definition save :: "db \<Rightarrow> EighthSignup \<Rightarrow> db" where
  "save d row = d\<lparr>signups := map (\<lambda>s. if signup_pk s = signup_pk row then row else s) (signups d)\<rparr>"

text \<open>\<open>EighthSignup.objects.create(user=.., scheduled_activity=..)\<close>: an INSERT with the next key.\<close>

definition create :: "db \<Rightarrow> nat \<Rightarrow> nat \<Rightarrow> db" where
  "create d u sa =
     d\<lparr>signups := signups d @ [\<lparr>signup_pk = next_signup_pk d, signup_user = u,
                                 scheduled_activity_id = sa, after_deadline = False\<rparr>],
        next_signup_pk := Suc (next_signup_pk d)\<rparr>"

text \<open>The value of \<open>force\<close> after the first statement of \<open>add_user\<close>.\<close>

definition effective_force :: "Request option \<Rightarrow> bool \<Rightarrow> bool" where
  "effective_force request force =
     (case request of
        None \<Rightarrow> force
      | Some r \<Rightarrow> force \<or> (''force'' \<in> set (GET r) \<and> is_eighth_admin (request_user r)))"

text \<open>The permission check: a request is present and its sender is neither the target user nor an admin.\<close>

definition signup_forbidden :: "Request option \<Rightarrow> User \<Rightarrow> bool" where
  "signup_forbidden request user =
     (case request of
        None \<Rightarrow> False
      | Some r \<Rightarrow> user_pk user \<noteq> user_pk (request_user r)
                   \<and> \<not> is_eighth_admin (request_user r))"

text \<open>
  The last block of \<open>add_user\<close> ("Everything's good to go - complete the signup"):
  \<open>get\<close> the user's signup in this block and repoint it, or \<open>create\<close> one when
  \<open>DoesNotExist\<close> is raised; any other exception of \<open>get\<close> propagates.
\<close>

definition complete_signup :: "db \<Rightarrow> nat \<Rightarrow> User \<Rightarrow> (error + unit) \<times> db" where
  "complete_signup d self user =
     (case objects_get (user_block_signups d (user_pk user)
                          (block_pk (block (scheduled_activities d self)))) of
        Inr existing_signup \<Rightarrow>
          (Inr (), save d (existing_signup\<lparr>scheduled_activity_id := self\<rparr>))
      | Inl DoesNotExist \<Rightarrow> (Inr (), create d (user_pk user) self)
      | Inl e \<Rightarrow> (Inl e, d))"

text \<open>
  \<open>add_user\<close> on the scheduled activity with key \<open>self\<close>. The clock read by
  \<open>is_too_early_to_signup\<close> is the argument \<open>now\<close>. The result is the exception raised, if
  any, and the store afterwards. An exception raised inside \<open>is_too_early_to_signup\<close>
  propagates out of \<open>add_user\<close>.
\<close>

definition add_user ::
  "db \<Rightarrow> nat \<Rightarrow> User \<Rightarrow> Request option \<Rightarrow> bool \<Rightarrow> datetime \<Rightarrow> (error + unit) \<times> db" where
  "add_user d self user request force0 now =
     (let force = effective_force request force0;
          me = scheduled_activities d self
      in if \<not> force
         then (if signup_forbidden request user then (Inl SignupForbidden, d)
               else if locked (block me) then (Inl BlockLocked, d)
               else if cancelled me then (Inl ScheduledActivityCancelled, d)
               else if deleted (activity me) then (Inl ActivityDeleted, d)
               else if is_full d self then (Inl ActivityFull, d)
               else (case (if presign (activity me) then is_too_early_to_signup me now
                           else Inr False) of
                       Inl e \<Rightarrow> (Inl e, d)
                     | Inr too_early \<Rightarrow>
                         if too_early then (Inl Presign, d)
                         else if in_a_stickie d self user then (Inl Sticky, d)
                         else if one_a_day (activity me) \<and> in_act d self user
                           then (Inl OneADay, d)
                         else complete_signup d self user))
         else complete_signup d self user)"

subsection \<open>Sequences of calls and the order of the checks\<close>

text \<open>
  One call of \<open>add_user\<close> with its arguments and the clock's reading, and a sequence of calls
  run one after the other on the store: a call that raises leaves the store as its
  \<open>add_user\<close> left it, and the next call runs on that store.
\<close>

record call =
  call_self :: nat
  call_user :: User
  call_request :: "Request option"
  call_force :: bool
  call_now :: datetime

fun add_users :: "db \<Rightarrow> call list \<Rightarrow> db" where
  "add_users d [] = d"
| "add_users d (c # cs) =
     add_users (snd (add_user d (call_self c) (call_user c) (call_request c) (call_force c)
                       (call_now c))) cs"

definition empty_store :: "(nat \<Rightarrow> EighthScheduledActivity) \<Rightarrow> nat \<Rightarrow> db" where
  "empty_store table first_pk =
     \<lparr>scheduled_activities = table, signups = [], next_signup_pk = first_pk\<rparr>"

text \<open>
  What every store built by \<open>add_user\<close> satisfies: primary keys are unique and below the
  sequence's next value, and no user has two signups in one block.
\<close>

definition store_inv :: "db \<Rightarrow> bool" where
  "store_inv d =
     (distinct (map signup_pk (signups d))
      \<and> (\<forall>s \<in> set (signups d). signup_pk s < next_signup_pk d)
      \<and> (\<forall>u b. length (user_block_signups d u b) \<le> 1))"

text \<open>
  The exception that the checks of \<open>add_user\<close> raise when the call is not forced, if any:
  the body of \<open>if not force:\<close> by itself.
\<close>

definition first_violated ::
  "db \<Rightarrow> nat \<Rightarrow> User \<Rightarrow> Request option \<Rightarrow> datetime \<Rightarrow> error option" where
  "first_violated d self user request now =
     (let me = scheduled_activities d self
      in if signup_forbidden request user then Some SignupForbidden
         else if locked (block me) then Some BlockLocked
         else if cancelled me then Some ScheduledActivityCancelled
         else if deleted (activity me) then Some ActivityDeleted
         else if is_full d self then Some ActivityFull
         else (case (if presign (activity me) then is_too_early_to_signup me now
                     else Inr False) of
                 Inl e \<Rightarrow> Some e
               | Inr too_early \<Rightarrow>
                   if too_early then Some Presign
                   else if in_a_stickie d self user then Some Sticky
                   else if one_a_day (activity me) \<and> in_act d self user then Some OneADay
                   else None))"



subsection \<open>A small school\<close>

text \<open>
  Two blocks on 2024-01-10 (ordinal 738895) and one the day after; a sticky activity, a
  one-a-day activity scheduled into both blocks of the day, an ordinary activity, and an
  activity with two rooms of the default capacity scheduled into a locked block. A presign
  activity is scheduled into a block dated 0001-01-01 (ordinal 1), the first date a
  \<open>DateField\<close> can hold.
\<close>

definition block_A :: EighthBlock where
  "block_A = \<lparr>block_pk = 1, date = 738895, block_letter = ''A'', locked = False\<rparr>"

definition block_B :: EighthBlock where
  "block_B = \<lparr>block_pk = 2, date = 738895, block_letter = ''B'', locked = False\<rparr>"

definition block_next_day :: EighthBlock where
  "block_next_day = \<lparr>block_pk = 3, date = 738896, block_letter = ''A'', locked = True\<rparr>"

definition block_year_one :: EighthBlock where
  "block_year_one = \<lparr>block_pk = 4, date = 1, block_letter = ''A'', locked = False\<rparr>"

definition default_room :: "string \<Rightarrow> EighthRoom" where
  "default_room n = \<lparr>room_name = n, room_capacity = - 1\<rparr>"

definition plain_activity :: "nat \<Rightarrow> string \<Rightarrow> EighthActivity" where
  "plain_activity k n =
     \<lparr>activity_pk = k, activity_name = n, rooms = [], restricted = False, presign = False,
      one_a_day = False, both_blocks = False, sticky = False, special = False,
      deleted = False\<rparr>"

definition sticky_activity :: EighthActivity where
  "sticky_activity = (plain_activity 1 ''Orchestra'')\<lparr>sticky := True\<rparr>"

definition chess_club :: EighthActivity where
  "chess_club = (plain_activity 2 ''Chess Club'')\<lparr>one_a_day := True\<rparr>"

definition study_hall :: EighthActivity where
  "study_hall = plain_activity 3 ''Study Hall''"

definition two_default_rooms :: EighthActivity where
  "two_default_rooms =
     (plain_activity 4 ''Robotics'')\<lparr>rooms := [default_room ''101'', default_room ''102'']\<rparr>"

definition debate :: EighthActivity where
  "debate = (plain_activity 5 ''Debate'')\<lparr>presign := True\<rparr>"

definition scheduled :: "EighthBlock \<Rightarrow> EighthActivity \<Rightarrow> EighthScheduledActivity" where
  "scheduled b a =
     \<lparr>block = b, activity = a, sa_capacity = None, attendance_taken = False, cancelled = False\<rparr>"

definition school :: "nat \<Rightarrow> EighthScheduledActivity" where
  "school k =
     (if k = 1 then scheduled block_A sticky_activity
      else if k = 2 then scheduled block_B study_hall
      else if k = 3 then scheduled block_A chess_club
      else if k = 4 then scheduled block_B chess_club
      else if k = 5 then (scheduled block_next_day two_default_rooms)\<lparr>cancelled := True\<rparr>
      else if k = 6 then scheduled block_B two_default_rooms
      else if k = 7 then scheduled block_year_one debate
      else scheduled block_A study_hall)"

definition student :: User where
  "student = \<lparr>user_pk = 7, is_eighth_admin = False\<rparr>"

definition other_student :: User where
  "other_student = \<lparr>user_pk = 8, is_eighth_admin = False\<rparr>"

definition at_time :: "date \<Rightarrow> nat \<Rightarrow> nat \<Rightarrow> datetime" where
  "at_time d h m = \<lparr>dt_date = d, hour = h, minute = m, second = 0, microsecond = 0\<rparr>"

definition direct_call :: "nat \<Rightarrow> User \<Rightarrow> call" where
  "direct_call k u =
     \<lparr>call_self = k, call_user = u, call_request = None, call_force = False,
      call_now = at_time 738894 12 0\<rparr>"


definition noon_the_day_before :: datetime where
  "noon_the_day_before = at_time 738894 12 0"

definition signup_row :: "nat \<Rightarrow> nat \<Rightarrow> nat \<Rightarrow> EighthSignup" where
  "signup_row k u sa =
     \<lparr>signup_pk = k, signup_user = u, scheduled_activity_id = sa, after_deadline = False\<rparr>"

definition store_with :: "EighthSignup list \<Rightarrow> nat \<Rightarrow> db" where
  "store_with rows next_pk =
     \<lparr>scheduled_activities = school, signups = rows, next_signup_pk = next_pk\<rparr>"


section \<open>Lemmas\<close>

lemma fold_room_capacity:
  "fold (\<lambda>room capacity. capacity + room_capacity room) rs a = a + sum_list (map room_capacity rs)"
  by (induction rs arbitrary: a) simp_all

lemma objects_get_Inr: "objects_get xs = Inr e \<longleftrightarrow> xs = [e]"
  by (auto simp: objects_get_def split: list.splits)

lemma objects_get_DoesNotExist: "objects_get xs = Inl DoesNotExist \<longleftrightarrow> xs = []"
  by (auto simp: objects_get_def split: list.splits)

lemma objects_get_Multiple:
  "objects_get xs = Inl e \<Longrightarrow> e \<noteq> DoesNotExist \<Longrightarrow> e = MultipleObjectsReturned \<and> 1 < length xs"
  by (auto simp: objects_get_def split: list.splits)

lemma filter_singleton_mem: "filter P xs = [e] \<Longrightarrow> e \<in> set xs \<and> P e"
proof -
  assume h: "filter P xs = [e]"
  have "e \<in> set (filter P xs)" by (simp add: h)
  then show ?thesis by simp
qed

text \<open>On a table with unique keys, an UPDATE by key changes the one position of the row.\<close>

lemma map_update_by_key:
  assumes "distinct (map k xs)" and "i < length xs" and "k (xs ! i) = k r"
  shows "map (\<lambda>s. if k s = k r then r else s) xs = xs[i := r]"
proof (rule nth_equalityI)
  show "length (map (\<lambda>s. if k s = k r then r else s) xs) = length (xs[i := r])" by simp
next
  fix j assume "j < length (map (\<lambda>s. if k s = k r then r else s) xs)"
  then have j: "j < length xs" by simp
  have "k (xs ! j) = k r \<longleftrightarrow> j = i"
    using assms j by (metis length_map nth_eq_iff_index_eq nth_map)
  then show "map (\<lambda>s. if k s = k r then r else s) xs ! j = xs[i := r] ! j"
    using j assms(2) by (simp add: nth_list_update)
qed

lemma complete_signup_failure:
  assumes "fst (complete_signup d self user) = Inl e"
  shows "snd (complete_signup d self user) = d \<and> e = MultipleObjectsReturned
         \<and> 1 < length (user_block_signups d (user_pk user)
                         (block_pk (block (scheduled_activities d self))))"
proof (cases "objects_get (user_block_signups d (user_pk user)
                (block_pk (block (scheduled_activities d self))))")
  case (Inr s)
  with assms show ?thesis by (simp add: complete_signup_def)
next
  case (Inl e')
  show ?thesis
  proof (cases "e' = DoesNotExist")
    case True
    with Inl assms show ?thesis by (simp add: complete_signup_def)
  next
    case False
    with Inl assms have "e = e'" and "snd (complete_signup d self user) = d"
      by (cases e'; simp add: complete_signup_def)+
    with objects_get_Multiple[OF Inl False] show ?thesis by simp
  qed
qed

text \<open>\<open>add_user\<close> as the exception of its checks, then its last block.\<close>

lemma add_user_by_rules:
  "add_user d self user request force now =
     (if effective_force request force then complete_signup d self user
      else case first_violated d self user request now of
             Some e \<Rightarrow> (Inl e, d)
           | None \<Rightarrow> complete_signup d self user)"
  by (auto simp: add_user_def first_violated_def Let_def split: sum.split)

text \<open>A call that raises leaves the store as it was.\<close>

lemma add_user_failure_leaves_store:
  "fst (add_user d self user request force now) = Inl e
     \<Longrightarrow> snd (add_user d self user request force now) = d"
  using complete_signup_failure[of d self user e]
  by (auto simp: add_user_by_rules split: if_splits option.splits)

lemma save_repoint_inv:
  assumes inv: "store_inv d"
    and one: "user_block_signups d u (block_pk (block (scheduled_activities d self))) = [e]"
  shows "store_inv (save d (e\<lparr>scheduled_activity_id := self\<rparr>))"
proof -
  let ?f = "\<lambda>s. if signup_pk s = signup_pk e then e\<lparr>scheduled_activity_id := self\<rparr> else s"
  let ?d' = "save d (e\<lparr>scheduled_activity_id := self\<rparr>)"
  let ?Q = "\<lambda>u' b' s. signup_user s = u'
              \<and> block_pk (block (scheduled_activities d (scheduled_activity_id s))) = b'"
  from one have e_in: "e \<in> set (signups d)"
    and e_blk: "block_pk (block (scheduled_activity d e))
                  = block_pk (block (scheduled_activities d self))"
    unfolding user_block_signups_def by (auto dest: filter_singleton_mem)
  from inv have dist: "distinct (map signup_pk (signups d))"
    and lt: "\<forall>s \<in> set (signups d). signup_pk s < next_signup_pk d"
    and uniq: "\<And>u' b'. length (user_block_signups d u' b') \<le> 1"
    by (simp_all add: store_inv_def)
  have same: "s = e" if "s \<in> set (signups d)" "signup_pk s = signup_pk e" for s
    using that e_in dist by (meson distinct_map inj_onD)
  have key: "?Q u' b' (?f s) = ?Q u' b' s" if "s \<in> set (signups d)" for s u' b'
    using same[OF that] e_blk by (auto simp: scheduled_activity_def)
  have sg: "signups ?d' = map ?f (signups d)"
    and tab: "scheduled_activities ?d' = scheduled_activities d"
    and nx: "next_signup_pk ?d' = next_signup_pk d"
    by (simp_all add: save_def)
  have pks: "map signup_pk (signups ?d') = map signup_pk (signups d)"
    unfolding sg by (simp add: comp_def)
  have len: "length (user_block_signups ?d' u' b') = length (user_block_signups d u' b')" for u' b'
  proof -
    have "filter (?Q u' b') (map ?f (signups d)) = map ?f (filter (?Q u' b') (signups d))"
      unfolding filter_map comp_def
      by (rule arg_cong[where f="map ?f"], rule filter_cong[OF refl]) (use key in blast)
    then show ?thesis
      unfolding user_block_signups_def scheduled_activity_def sg tab by simp
  qed
  have "distinct (map signup_pk (signups ?d'))" using dist pks by simp
  moreover have "\<forall>s \<in> set (signups ?d'). signup_pk s < next_signup_pk ?d'"
  proof
    fix s assume "s \<in> set (signups ?d')"
    then have "signup_pk s \<in> set (map signup_pk (signups ?d'))" by simp
    then have "signup_pk s \<in> set (map signup_pk (signups d))" by (simp only: pks)
    then show "signup_pk s < next_signup_pk ?d'" using lt nx by auto
  qed
  moreover have "\<forall>u' b'. length (user_block_signups ?d' u' b') \<le> 1"
    using uniq len by simp
  ultimately show ?thesis unfolding store_inv_def by blast
qed

lemma create_inv:
  assumes inv: "store_inv d"
    and none: "user_block_signups d u (block_pk (block (scheduled_activities d self))) = []"
  shows "store_inv (create d u self)"
proof -
  let ?n = "\<lparr>signup_pk = next_signup_pk d, signup_user = u, scheduled_activity_id = self,
             after_deadline = False\<rparr>"
  let ?d' = "create d u self"
  have sg: "signups ?d' = signups d @ [?n]"
    and tab: "scheduled_activities ?d' = scheduled_activities d"
    and nx: "next_signup_pk ?d' = Suc (next_signup_pk d)"
    by (simp_all add: create_def)
  from inv have dist: "distinct (map signup_pk (signups d))"
    and lt: "\<forall>s \<in> set (signups d). signup_pk s < next_signup_pk d"
    and uniq: "\<And>u' b'. length (user_block_signups d u' b') \<le> 1"
    by (simp_all add: store_inv_def)
  have "distinct (map signup_pk (signups ?d'))"
    unfolding sg using dist lt by auto
  moreover have "\<forall>s \<in> set (signups ?d'). signup_pk s < next_signup_pk ?d'"
    unfolding sg nx using lt by auto
  moreover have "length (user_block_signups ?d' u' b') \<le> 1" for u' b'
    using uniq[of u' b'] none
    unfolding user_block_signups_def scheduled_activity_def sg tab
    by (cases "u' = u \<and> b' = block_pk (block (scheduled_activities d self))") auto
  ultimately show ?thesis by (simp add: store_inv_def)
qed

lemma complete_signup_inv:
  assumes inv: "store_inv d"
  shows "store_inv (snd (complete_signup d self user))"
proof (cases "objects_get (user_block_signups d (user_pk user)
                (block_pk (block (scheduled_activities d self))))")
  case (Inr s)
  then have one: "user_block_signups d (user_pk user)
                    (block_pk (block (scheduled_activities d self))) = [s]"
    by (simp only: objects_get_Inr)
  have "snd (complete_signup d self user) = save d (s\<lparr>scheduled_activity_id := self\<rparr>)"
    unfolding complete_signup_def Inr by simp
  then show ?thesis using save_repoint_inv[OF inv one] by simp
next
  case (Inl e)
  show ?thesis
  proof (cases "e = DoesNotExist")
    case True
    with Inl have none: "user_block_signups d (user_pk user)
                           (block_pk (block (scheduled_activities d self))) = []"
      by (simp only: objects_get_DoesNotExist)
    have "snd (complete_signup d self user) = create d (user_pk user) self"
      unfolding complete_signup_def Inl True by simp
    then show ?thesis using create_inv[OF inv none] by simp
  next
    case False
    then have "snd (complete_signup d self user) = d"
      unfolding complete_signup_def Inl by (cases e) simp_all
    then show ?thesis using inv by simp
  qed
qed

lemma add_user_inv: "store_inv d \<Longrightarrow> store_inv (snd (add_user d self user request force now))"
  by (simp add: add_user_by_rules complete_signup_inv split: option.split)

lemma add_users_inv: "store_inv d \<Longrightarrow> store_inv (add_users d cs)"
  by (induction cs arbitrary: d) (simp_all add: add_user_inv)

lemma empty_store_inv: "store_inv (empty_store table first_pk)"
  by (simp add: store_inv_def empty_store_def user_block_signups_def)

text \<open>
  The one-a-day query starts from the signups of this scheduled activity and excludes those
  in this block: it selects nothing, whatever the store holds.
\<close>

lemma in_act_never: "\<not> in_act d self user"
  by (simp add: in_act_def eighthsignup_set_def scheduled_activity_def Let_def filter_empty_conv)

text \<open>The sticky query sees only signups of this scheduled activity.\<close>

lemma in_a_stickie_iff:
  "in_a_stickie d self user \<longleftrightarrow>
     sticky (activity (scheduled_activities d self))
     \<and> (\<exists>s \<in> set (signups d). signup_user s = user_pk user \<and> scheduled_activity_id s = self)"
  by (auto simp: in_a_stickie_def eighthsignup_set_def scheduled_activity_def filter_empty_conv)

text \<open>The time of day of the clock's reading never reaches the result.\<close>

lemma get_first_upcoming_block_date_only:
  "dt_date now = dt_date now' \<Longrightarrow>
     get_first_upcoming_block objects now = get_first_upcoming_block objects now'"
  by (simp add: get_first_upcoming_block_def date_gte_def)

text \<open>For a limit \<open>n \<ge> 0\<close> the slice keeps the first \<open>n + 1\<close> blocks after \<open>self\<close>.\<close>

lemma next_blocks_slice:
  "0 \<le> n \<Longrightarrow>
     next_blocks objects self n
       = Inr (take (nat n + 1)
                (filter (\<lambda>b. date b > date self
                             \<or> (date b = date self \<and> block_letter b > block_letter self))
                   (order_by_date_letter objects)))"
  by (simp add: next_blocks_def slice_to_def nat_add_distrib)


lemmas school_defs =
  school_def scheduled_def block_A_def block_B_def block_next_day_def plain_activity_def
  sticky_activity_def chess_club_def study_hall_def two_default_rooms_def default_room_def
  block_year_one_def debate_def
  student_def other_student_def at_time_def direct_call_def noon_the_day_before_def
  signup_row_def store_with_def empty_store_def

lemmas add_user_defs =
  add_user_def effective_force_def signup_forbidden_def is_full_def get_true_capacity_def
  activity_capacity_def eighthsignup_set_def in_a_stickie_def in_act_def
  is_too_early_to_signup_def datetime_less_def combine_midnight_def minus_days_def
  complete_signup_def objects_get_def user_block_signups_def scheduled_activity_def
  save_def create_def Let_def

section \<open>The claims\<close>

text \<open>
  Claim C1. After any finite sequence of sequential \<open>add_user\<close> calls starting from an empty
  signup store, every user holds at most one signup per block: for every user \<open>u\<close> and block
  \<open>b\<close>, at most one signup row has user \<open>u\<close> and a scheduled activity in block \<open>b\<close>.
\<close>

theorem one_signup_per_user_and_block:
  "length (filter (\<lambda>s. signup_user s = u
                       \<and> block_pk (block (scheduled_activities
                             (add_users (empty_store table first_pk) calls)
                             (scheduled_activity_id s))) = b)
             (signups (add_users (empty_store table first_pk) calls))) \<le> 1"
proof -
  have "store_inv (add_users (empty_store table first_pk) calls)"
    by (rule add_users_inv[OF empty_store_inv])
  then have "length (user_block_signups (add_users (empty_store table first_pk) calls) u b) \<le> 1"
    by (simp add: store_inv_def)
  then show ?thesis by (simp add: user_block_signups_def scheduled_activity_def)
qed

theorem one_signup_per_user_and_block_witness:
  "signups (add_users (empty_store school 1)
              [direct_call 1 student, direct_call 3 student, direct_call 2 student])
     = [signup_row 1 7 3, signup_row 2 7 2]
   \<and> length (filter (\<lambda>s. signup_user s = 7
                       \<and> block_pk (block (scheduled_activities
                             (add_users (empty_store school 1)
                                [direct_call 1 student, direct_call 3 student,
                                 direct_call 2 student])
                             (scheduled_activity_id s))) = 1)
             (signups (add_users (empty_store school 1)
                         [direct_call 1 student, direct_call 3 student,
                          direct_call 2 student]))) \<le> 1"
  using one_signup_per_user_and_block
          [of 7 school 1 "[direct_call 1 student, direct_call 3 student, direct_call 2 student]" 1]
  by (simp add: school_defs add_user_defs)


text \<open>
  Claim C2. When \<open>add_user\<close> is called for a user who already holds a signup in the block of
  the requested scheduled activity, that signup row is updated in place to point at the
  requested scheduled activity (same position, same key, no second row); when the user holds
  none there, a new row is created. The step runs whenever the checks raise nothing, and
  under \<open>force\<close> it runs whatever the checks would say.
\<close>

theorem add_user_transfers_or_creates:
  assumes "distinct (map signup_pk (signups d))"
    and "effective_force request force \<or> first_violated d self user request now = None"
  shows "(\<forall>e. user_block_signups d (user_pk user)
                 (block_pk (block (scheduled_activities d self))) = [e]
              \<longrightarrow> (\<exists>i < length (signups d). signups d ! i = e
                     \<and> add_user d self user request force now
                         = (Inr (), d\<lparr>signups :=
                                         (signups d)[i := e\<lparr>scheduled_activity_id := self\<rparr>]\<rparr>)))
       \<and> (user_block_signups d (user_pk user)
              (block_pk (block (scheduled_activities d self))) = []
            \<longrightarrow> add_user d self user request force now
                  = (Inr (), d\<lparr>signups := signups d
                                   @ [\<lparr>signup_pk = next_signup_pk d,
                                       signup_user = user_pk user,
                                       scheduled_activity_id = self,
                                       after_deadline = False\<rparr>],
                                 next_signup_pk := Suc (next_signup_pk d)\<rparr>))"
proof -
  have run: "add_user d self user request force now = complete_signup d self user"
    using assms(2) by (auto simp: add_user_by_rules)
  have transfer: "\<exists>i < length (signups d). signups d ! i = e
            \<and> add_user d self user request force now
                = (Inr (), d\<lparr>signups := (signups d)[i := e\<lparr>scheduled_activity_id := self\<rparr>]\<rparr>)"
    if one: "user_block_signups d (user_pk user)
               (block_pk (block (scheduled_activities d self))) = [e]" for e
  proof -
    from one have "e \<in> set (signups d)"
      unfolding user_block_signups_def by (auto dest: filter_singleton_mem)
    then obtain i where i: "i < length (signups d)" "signups d ! i = e"
      by (auto simp: in_set_conv_nth)
    let ?r = "e\<lparr>scheduled_activity_id := self\<rparr>"
    have "signup_pk (signups d ! i) = signup_pk ?r" using i by simp
    from map_update_by_key[OF assms(1) i(1) this]
    have "save d ?r = d\<lparr>signups := (signups d)[i := ?r]\<rparr>"
      by (simp add: save_def)
    moreover have "complete_signup d self user = (Inr (), save d ?r)"
      unfolding complete_signup_def one by (simp add: objects_get_def)
    ultimately show ?thesis using i run by auto
  qed
  have fresh: "add_user d self user request force now
                 = (Inr (), d\<lparr>signups := signups d
                                   @ [\<lparr>signup_pk = next_signup_pk d,
                                       signup_user = user_pk user,
                                       scheduled_activity_id = self,
                                       after_deadline = False\<rparr>],
                                 next_signup_pk := Suc (next_signup_pk d)\<rparr>)"
    if none: "user_block_signups d (user_pk user)
                (block_pk (block (scheduled_activities d self))) = []"
    unfolding run complete_signup_def none by (simp add: objects_get_def create_def)
  from transfer fresh show ?thesis by blast
qed

theorem add_user_transfers_or_creates_witness:
  "distinct (map signup_pk (signups (store_with [signup_row 1 8 5, signup_row 2 7 1] 3)))
   \<and> effective_force None True
   \<and> first_violated (store_with [signup_row 1 8 5, signup_row 2 7 1] 3) 5 student None
        noon_the_day_before = Some BlockLocked
   \<and> user_block_signups (store_with [signup_row 1 8 5, signup_row 2 7 1] 3) 7 1
        = [signup_row 2 7 1]
   \<and> add_user (store_with [signup_row 1 8 5, signup_row 2 7 1] 3) 3 student None True
        noon_the_day_before
        = (Inr (), store_with [signup_row 1 8 5, signup_row 2 7 3] 3)
   \<and> \<not> effective_force None False
   \<and> first_violated (store_with [signup_row 1 8 5, signup_row 2 7 1] 3) 3 student None
        noon_the_day_before = None
   \<and> add_user (store_with [signup_row 1 8 5, signup_row 2 7 1] 3) 3 student None False
        noon_the_day_before
        = (Inr (), store_with [signup_row 1 8 5, signup_row 2 7 3] 3)
   \<and> user_block_signups (store_with [signup_row 1 8 5, signup_row 2 7 1] 3) 7 3 = []
   \<and> add_user (store_with [signup_row 1 8 5, signup_row 2 7 1] 3) 5 student None True
        noon_the_day_before
        = (Inr (), store_with [signup_row 1 8 5, signup_row 2 7 1, signup_row 3 7 5] 4)"
  using add_user_transfers_or_creates
          [of "store_with [signup_row 1 8 5, signup_row 2 7 1] 3" None True 3 student
              noon_the_day_before]
        add_user_transfers_or_creates
          [of "store_with [signup_row 1 8 5, signup_row 2 7 1] 3" None False 3 student
              noon_the_day_before]
        add_user_transfers_or_creates
          [of "store_with [signup_row 1 8 5, signup_row 2 7 1] 3" None True 5 student
              noon_the_day_before]
  by (simp add: school_defs add_user_defs first_violated_def)


text \<open>
  Claim C3. When \<open>force\<close> is false, \<open>add_user\<close> raises \<open>Sticky\<close> exactly when the user has a
  signup, on the date of the requested block, into any scheduled activity whose activity is
  sticky; in particular, after a user signs up for a sticky activity in block A, a signup
  for a different activity in block B of the same date fails with \<open>Sticky\<close>.

  The code at that input: the student is signed up for the sticky activity in block A
  (scheduled activity 1); the call for the ordinary activity in block B of the same date
  (scheduled activity 2) raises nothing and adds a second signup, because the sticky query
  runs over the signups of scheduled activity 2 only.
\<close>

theorem sticky_not_raised_in_other_block:
  "add_user (empty_store school 1) 1 student None False noon_the_day_before
     = (Inr (), store_with [signup_row 1 7 1] 2)
   \<and> sticky (activity (school 1))
   \<and> date (block (school 1)) = date (block (school 2))
   \<and> block_pk (block (school 1)) \<noteq> block_pk (block (school 2))
   \<and> \<not> in_a_stickie (store_with [signup_row 1 7 1] 2) 2 student
   \<and> add_user (store_with [signup_row 1 7 1] 2) 2 student None False noon_the_day_before
     = (Inr (), store_with [signup_row 1 7 1, signup_row 2 7 2] 3)"
  by (simp add: school_defs add_user_defs)

text \<open>
  Claim C4. When \<open>force\<close> is false and the requested activity has \<open>one_a_day\<close>, \<open>add_user\<close>
  raises \<open>OneADay\<close> exactly when the user has another signup for this activity on the same
  date in another block; in particular, for an activity scheduled into two blocks of one
  date, a user signed up in the first is rejected with \<open>OneADay\<close> at the second.

  The code at that input: Chess Club is scheduled into blocks A and B of 2024-01-10
  (scheduled activities 3 and 4); the student is signed up in block A; the call for block B
  raises nothing and adds a second Chess Club signup on that date.
\<close>

theorem one_a_day_not_raised:
  "add_user (empty_store school 1) 3 student None False noon_the_day_before
     = (Inr (), store_with [signup_row 1 7 3] 2)
   \<and> one_a_day (activity (school 4))
   \<and> activity_pk (activity (school 3)) = activity_pk (activity (school 4))
   \<and> date (block (school 3)) = date (block (school 4))
   \<and> block_pk (block (school 3)) \<noteq> block_pk (block (school 4))
   \<and> add_user (store_with [signup_row 1 7 3] 2) 4 student None False noon_the_day_before
     = (Inr (), store_with [signup_row 1 7 3, signup_row 2 7 4] 3)"
  by (simp add: school_defs add_user_defs)


text \<open>
  Claim C6. When \<open>force\<close> is false and the user who sent the request is neither the target
  user nor an admin, \<open>add_user\<close> fails with \<open>SignupForbidden\<close> and the store is unchanged,
  whatever the other checks would find: the permission check is the first one.
\<close>

theorem add_user_signup_forbidden:
  assumes "request = Some r"
    and "\<not> force"
    and "user_pk user \<noteq> user_pk (request_user r)"
    and "\<not> is_eighth_admin (request_user r)"
  shows "add_user d self user request force now = (Inl SignupForbidden, d)"
  using assms by (simp add: add_user_def effective_force_def signup_forbidden_def)

theorem add_user_signup_forbidden_witness:
  "user_pk student \<noteq> user_pk (request_user \<lparr>GET = [''force''], request_user = other_student\<rparr>)
   \<and> \<not> is_eighth_admin (request_user \<lparr>GET = [''force''], request_user = other_student\<rparr>)
   \<and> locked (block (school 5))
   \<and> add_user (empty_store school 1) 5 student
        (Some \<lparr>GET = [''force''], request_user = other_student\<rparr>) False noon_the_day_before
       = (Inl SignupForbidden, empty_store school 1)"
  using add_user_signup_forbidden
          [of "Some \<lparr>GET = [''force''], request_user = other_student\<rparr>"
              "\<lparr>GET = [''force''], request_user = other_student\<rparr>" False student
              "empty_store school 1" 5 noon_the_day_before]
  by (simp add: school_defs)

text \<open>
  Claim C7. The effective capacity of a scheduled activity is its capacity override when it
  has one, else the sum of the capacities of the activity's rooms, else \<open>-1\<close> (unlimited) when
  the activity has no room; \<open>is_full\<close> is false when the effective capacity is \<open>-1\<close>, and
  otherwise true exactly when the number of signups of the scheduled activity is at least the
  effective capacity.
\<close>

theorem true_capacity_and_is_full:
  "get_true_capacity sa
     = (case sa_capacity sa of
          Some c \<Rightarrow> c
        | None \<Rightarrow> (if rooms (activity sa) = [] then - 1
                   else sum_list (map room_capacity (rooms (activity sa)))))
   \<and> is_full d self
     = (if get_true_capacity (scheduled_activities d self) = - 1 then False
        else int (length (filter (\<lambda>s. scheduled_activity_id s = self) (signups d)))
               \<ge> get_true_capacity (scheduled_activities d self))"
  by (simp add: get_true_capacity_def activity_capacity_def is_full_def eighthsignup_set_def
        fold_room_capacity Let_def split: option.split)


theorem true_capacity_and_is_full_witness:
  "get_true_capacity (scheduled block_A
       ((plain_activity 9 ''Band'')\<lparr>rooms := [\<lparr>room_name = ''201'', room_capacity = 2\<rparr>,
                                               \<lparr>room_name = ''202'', room_capacity = 3\<rparr>]\<rparr>)) = 5
   \<and> get_true_capacity ((scheduled block_A (plain_activity 9 ''Band''))\<lparr>sa_capacity := Some 0\<rparr>)
       = 0
   \<and> get_true_capacity (school 2) = - 1
   \<and> \<not> is_full (store_with [signup_row 1 7 2, signup_row 2 8 2] 3) 2
   \<and> is_full (store_with [] 1) 6"
  using true_capacity_and_is_full
          [of "scheduled block_A
                 ((plain_activity 9 ''Band'')\<lparr>rooms := [\<lparr>room_name = ''201'', room_capacity = 2\<rparr>,
                                                         \<lparr>room_name = ''202'', room_capacity = 3\<rparr>]\<rparr>)"
              "store_with [signup_row 1 7 2, signup_row 2 8 2] 3" 2]
        true_capacity_and_is_full
          [of "(scheduled block_A (plain_activity 9 ''Band''))\<lparr>sa_capacity := Some 0\<rparr>"
              "store_with [] 1" 6]
        true_capacity_and_is_full [of "school 2" "store_with [] 1" 6]
  by (simp add: school_defs get_true_capacity_def activity_capacity_def is_full_def
        eighthsignup_set_def)

text \<open>
  Claim C8. For every block \<open>b\<close> and every limit \<open>n \<ge> 0\<close>, \<open>next_blocks(b, n)\<close> returns blocks
  strictly after \<open>b\<close> in the order by date and letter, and \<open>previous_blocks(b, n)\<close> blocks
  strictly before \<open>b\<close>, each at most \<open>n\<close> of them; with the limit \<open>-1\<close> all of them.

  The code at limits 0 and 1: a slice \<open>[:quantity + 1]\<close>, so one block for the limit 0 and
  two blocks for the limit 1.
\<close>

theorem next_blocks_one_more_than_quantity:
  "next_blocks [block_next_day, block_A, block_B] block_A 0 = Inr [block_B]
   \<and> next_blocks [block_next_day, block_A, block_B] block_A 1 = Inr [block_B, block_next_day]
   \<and> previous_blocks [block_next_day, block_A, block_B] block_next_day 0 = Inr [block_B]
   \<and> previous_blocks [block_next_day, block_A, block_B] block_next_day 1
       = Inr [block_A, block_B]
   \<and> next_blocks [block_next_day, block_A, block_B] block_A (- 1)
       = Inr [block_B, block_next_day]"
  by (simp add: next_blocks_def previous_blocks_def order_by_date_letter_def slice_to_def
        block_A_def block_B_def block_next_day_def)

text \<open>
  Claim C9. \<open>get_first_upcoming_block\<close> at 16:59 on day D returns what it returns at 00:00 on
  day D, at 17:01 on day D the blocks dated D are no longer candidates and the result is the
  earliest block dated D+1 or later, and with no candidate the result is \<open>None\<close>.

  The code at 17:01 on 2024-01-10: the clock's reading keeps its time of day, but the lookup
  \<open>date__gte\<close> on the date column compares dates, so block A of 2024-01-10 is still the
  result, as it is at 00:00 and at 16:59.
\<close>

theorem first_upcoming_block_at_17_01:
  "get_first_upcoming_block [block_next_day, block_B, block_A] (at_time 738895 17 1)
     = Some block_A
   \<and> get_first_upcoming_block [block_next_day, block_B, block_A] (at_time 738895 16 59)
     = Some block_A
   \<and> get_first_upcoming_block [block_next_day, block_B, block_A] (at_time 738895 0 0)
     = Some block_A
   \<and> get_first_upcoming_block [block_next_day, block_B, block_A] (at_time 738897 9 0) = None"
  by (simp add: get_first_upcoming_block_def date_gte_def order_by_date_letter_def at_time_def
        block_A_def block_B_def block_next_day_def)

text \<open>
  Claim C10, as amended. For a scheduled activity whose effective capacity is negative and
  not \<open>-1\<close> (two rooms of the default capacity \<open>-1\<close> sum to \<open>-2\<close>), \<open>is_full\<close> is true even with
  no signup, and every call of \<open>add_user\<close> that is not forced fails and leaves the store as it
  was: with \<open>ActivityFull\<close> when the request is permitted, the block is not locked, the
  scheduled activity is not cancelled and the activity is not deleted, and with the error of
  the first of these four checks that fails otherwise.
\<close>

theorem negative_capacity_is_full:
  assumes "get_true_capacity (scheduled_activities d self) < 0"
    and "get_true_capacity (scheduled_activities d self) \<noteq> - 1"
  shows "is_full d self
       \<and> (\<not> effective_force request force
            \<longrightarrow> (\<exists>e. add_user d self user request force now = (Inl e, d)
                     \<and> first_violated d self user request now = Some e
                     \<and> e \<in> {SignupForbidden, BlockLocked, ScheduledActivityCancelled,
                             ActivityDeleted, ActivityFull}
                     \<and> (\<not> signup_forbidden request user
                          \<and> \<not> locked (block (scheduled_activities d self))
                          \<and> \<not> cancelled (scheduled_activities d self)
                          \<and> \<not> deleted (activity (scheduled_activities d self))
                        \<longrightarrow> e = ActivityFull)))"
proof -
  have full: "is_full d self"
    using assms by (simp add: is_full_def Let_def)
  have "\<exists>e. add_user d self user request force now = (Inl e, d)
             \<and> first_violated d self user request now = Some e
             \<and> e \<in> {SignupForbidden, BlockLocked, ScheduledActivityCancelled,
                     ActivityDeleted, ActivityFull}
             \<and> (\<not> signup_forbidden request user
                  \<and> \<not> locked (block (scheduled_activities d self))
                  \<and> \<not> cancelled (scheduled_activities d self)
                  \<and> \<not> deleted (activity (scheduled_activities d self))
                \<longrightarrow> e = ActivityFull)"
    if "\<not> effective_force request force"
    using that full
    by (auto simp: add_user_by_rules first_violated_def Let_def)
  with full show ?thesis by blast
qed

theorem negative_capacity_is_full_witness:
  "get_true_capacity (scheduled_activities (empty_store school 1) 6) = - 2
   \<and> signups (empty_store school 1) = []
   \<and> is_full (empty_store school 1) 6
   \<and> \<not> effective_force None False
   \<and> add_user (empty_store school 1) 6 student None False noon_the_day_before
       = (Inl ActivityFull, empty_store school 1)"
  using negative_capacity_is_full
          [of "empty_store school 1" 6 None False student noon_the_day_before]
  by (simp add: school_defs add_user_defs)

text \<open>
  The claim as first stated (every such call fails with \<open>ActivityFull\<close>) is false: scheduled
  activity 5 has the effective capacity \<open>-2\<close> and no signup, its block is locked, and the
  call fails with \<open>BlockLocked\<close>.
\<close>

theorem negative_capacity_locked_block_counterexample:
  "get_true_capacity (scheduled_activities (empty_store school 1) 5) = - 2
   \<and> is_full (empty_store school 1) 5
   \<and> \<not> effective_force None False
   \<and> add_user (empty_store school 1) 5 student None False noon_the_day_before
       = (Inl BlockLocked, empty_store school 1)
   \<and> fst (add_user (empty_store school 1) 5 student None False noon_the_day_before)
       \<noteq> Inl ActivityFull"
  by (simp add: school_defs add_user_defs)


end
